theory Spec2Isabelle
  imports Main "HOL-Library.Multiset"
begin

section \<open>Errors and constants of \<open>tricrypto_ng.py\<close>\<close>

text \<open>
  Every exception the modelled Python can raise is a value. \<open>CalculationError\<close> and
  \<open>CurvesimValueError\<close> carry the message of the \<open>raise\<close>; \<open>AssertionError\<close> carries the
  message of the \<open>assert\<close> (empty when the source gives none). \<open>ZeroDivisionError\<close> and
  \<open>IndexError\<close> are what the interpreter raises on \<open>//\<close> by zero and on reading a list
  out of range. Python integers are unbounded, so they are \<open>int\<close>; Python's \<open>//\<close> rounds
  towards minus infinity, as \<open>div\<close> on \<open>int\<close> does.
\<close>

datatype error =
    CalculationError string
  | CurvesimValueError string
  | AssertionError string
  | ZeroDivisionError
  | IndexError


definition MAX_GAMMA :: int where
  "MAX_GAMMA = 2 * 10 ^ 16"

definition A_MULTIPLIER :: int where
  "A_MULTIPLIER = 10000"

section \<open>\<open>geometric_mean\<close>\<close>

text \<open>The inner loop \<open>for _x in x: tmp = tmp * _x // D\<close>.\<close>

fun gm_tmp :: "int \<Rightarrow> int \<Rightarrow> int list \<Rightarrow> error + int" where
  "gm_tmp D tmp [] = Inr tmp"
| "gm_tmp D tmp (x # xs) =
     (if D = 0 then Inl ZeroDivisionError else gm_tmp D (tmp * x div D) xs)"

text \<open>
  The loop \<open>for _ in range(255)\<close>; the first argument counts the iterations left.
  \<open>n_coins\<close> is the length of a list whose first element has been read, so
  \<open>n_coins * 10**18\<close> is not zero.
\<close>

primrec gm_loop :: "nat \<Rightarrow> int \<Rightarrow> int list \<Rightarrow> int \<Rightarrow> error + int" where
  "gm_loop 0 n_coins x D = Inl (CalculationError ''Did not converge'')"
| "gm_loop (Suc k) n_coins x D =
     (case gm_tmp D (10 ^ 18) x of
        Inl e \<Rightarrow> Inl e
      | Inr tmp \<Rightarrow>
          (let D' = D * ((n_coins - 1) * 10 ^ 18 + tmp) div (n_coins * 10 ^ 18);
               diff = \<bar>D - D'\<bar>
           in if diff \<le> 1 \<or> diff * 10 ^ 18 < D' then Inr D'
              else gm_loop k n_coins x D'))"

text \<open>\<open>sorted(xs, reverse=True)\<close> on integers.\<close>

definition sorted_desc :: "int list \<Rightarrow> int list" where
  "sorted_desc xs = rev (sort xs)"

definition geometric_mean :: "int list \<Rightarrow> bool \<Rightarrow> error + int" where
  "geometric_mean unsorted_x sort_flag =
     (let n_coins = int (length unsorted_x);
          x = (if sort_flag then sorted_desc unsorted_x else unsorted_x)
      in case x of
           [] \<Rightarrow> Inl IndexError
         | x0 # _ \<Rightarrow> gm_loop 255 n_coins x x0)"

section \<open>\<open>lp_price\<close>\<close>

text \<open>The body is a single \<open>raise\<close>; everything else in it is a comment.\<close>

definition lp_price :: "int \<Rightarrow> int list \<Rightarrow> error + int" where
  "lp_price virtual_price price_oracle =
     Inl (CalculationError ''LP price calc doesn't support more than 3 coins'')"

section \<open>\<open>_snekmate_log_2\<close> and \<open>_cbrt\<close>\<close>

text \<open>
  One \<open>if value >> s != 0: value = value >> s; result = result + s\<close>. On Python
  integers \<open>>>\<close> is the arithmetic shift, \<open>drop_bit\<close> on \<open>int\<close>.
\<close>

definition log2_step :: "nat \<Rightarrow> int \<times> int \<Rightarrow> int \<times> int" where
  "log2_step s vr =
     (case vr of (v, result) \<Rightarrow>
        if drop_bit s v \<noteq> 0 then (drop_bit s v, result + int s) else (v, result))"

definition snekmate_log_2 :: "int \<Rightarrow> bool \<Rightarrow> int" where
  "snekmate_log_2 x roundup =
     (let vr = log2_step 128 (x, 0);
          vr = log2_step 64 vr;
          vr = log2_step 32 vr;
          vr = log2_step 16 vr;
          vr = log2_step 8 vr;
          vr = log2_step 4 vr;
          vr = log2_step 2 vr;
          result = (if drop_bit 1 (fst vr) \<noteq> 0 then snd vr + 1 else snd vr)
      in if roundup \<and> push_bit (nat result) 1 < x then result + 1 else result)"

text \<open>One unrolled Newton step \<open>a = (2 * a + xx // (a * a)) // 3\<close>.\<close>

definition cbrt_step :: "int \<Rightarrow> error + int \<Rightarrow> error + int" where
  "cbrt_step xx r =
     (case r of
        Inl e \<Rightarrow> Inl e
      | Inr a \<Rightarrow> if a * a = 0 then Inl ZeroDivisionError
                 else Inr ((2 * a + xx div (a * a)) div 3))"

definition cbrt :: "int \<Rightarrow> error + int" where
  "cbrt x =
     (let xx = (if x \<ge> 115792089237316195423570985008687907853269 * 10 ^ 18 then x
                else if x \<ge> 115792089237316195423570985008687907853269 then x * 10 ^ 18
                else x * 10 * 36);
          log2x = snekmate_log_2 xx False;
          remainder = nat (log2x mod 3);
          a = (2 ^ nat (log2x div 3) * (1260 ^ remainder)) div 1000 ^ remainder;
          r = cbrt_step xx (Inr a);
          r = cbrt_step xx r;
          r = cbrt_step xx r;
          r = cbrt_step xx r;
          r = cbrt_step xx r;
          r = cbrt_step xx r;
          r = cbrt_step xx r
      in case r of
           Inl e \<Rightarrow> Inl e
         | Inr a \<Rightarrow>
             if x \<ge> 115792089237316195423570985008687907853269 * 10 ^ 18
               then Inr (a * 10 ^ 12)
             else if x \<ge> 115792089237316195423570985008687907853269
               then Inr (a * 10 ^ 6)
             else Inr a)"

section \<open>\<open>get_p\<close>\<close>






section \<open>\<open>newton_D\<close>: the definition in force\<close>

text \<open>
  The module defines \<open>newton_D\<close> twice. The second \<open>def\<close> rebinds the name, so a call
  of \<open>newton_D\<close> runs the second definition; it is modelled here under the source's
  name. The first definition is modelled below as \<open>newton_D_shadowed\<close>.
\<close>

text \<open>
  \<open>K0 = 10**18 * x[0] * N_COINS // D * x[1] * N_COINS // D * x[2] * N_COINS // D\<close>,
  evaluated left to right: \<open>x[0]\<close> exists here, the first \<open>// D\<close> comes before \<open>x[1]\<close>
  is read.
\<close>

fun newton_K0 :: "int list \<Rightarrow> int \<Rightarrow> int \<Rightarrow> error + int" where
  "newton_K0 (x0 # x1 # x2 # xs) N_COINS D =
     (if D = 0 then Inl ZeroDivisionError
      else Inr (10 ^ 18 * x0 * N_COINS div D * x1 * N_COINS div D * x2 * N_COINS div D))"
| "newton_K0 (x0 # xs) N_COINS D =
     (if D = 0 then Inl ZeroDivisionError else Inl IndexError)"
| "newton_K0 [] N_COINS D = Inl IndexError"

text \<open>
  The local variables of one iteration, as functions of what they are computed from:
  \<open>_g1k0\<close>, \<open>mul1\<close>, \<open>mul2\<close>, \<open>neg_fprime\<close>, \<open>D_plus\<close> and \<open>D_minus\<close>.
\<close>

definition newton_g1k0 :: "int \<Rightarrow> int \<Rightarrow> int" where
  "newton_g1k0 gamma K0 = \<bar>gamma + 10 ^ 18 - K0\<bar> + 1"

definition newton_mul1 :: "int \<Rightarrow> int \<Rightarrow> int \<Rightarrow> int \<Rightarrow> int" where
  "newton_mul1 ANN gamma D g1k0 =
     10 ^ 18 * D div gamma * g1k0 div gamma * g1k0 * A_MULTIPLIER div ANN"

definition newton_mul2 :: "int \<Rightarrow> int \<Rightarrow> int \<Rightarrow> int" where
  "newton_mul2 N_COINS K0 g1k0 = 2 * 10 ^ 18 * N_COINS * K0 div g1k0"

definition newton_neg_fprime :: "int \<Rightarrow> int \<Rightarrow> int \<Rightarrow> int \<Rightarrow> int \<Rightarrow> int \<Rightarrow> int" where
  "newton_neg_fprime N_COINS S D K0 mul1 mul2 =
     (S + S * mul2 div 10 ^ 18) + mul1 * N_COINS div K0 - mul2 * D div 10 ^ 18"

definition newton_D_plus :: "int \<Rightarrow> int \<Rightarrow> int \<Rightarrow> int" where
  "newton_D_plus D S neg_fprime = D * (neg_fprime + S) div neg_fprime"

definition newton_D_minus :: "int \<Rightarrow> int \<Rightarrow> int \<Rightarrow> int \<Rightarrow> int" where
  "newton_D_minus D K0 mul1 neg_fprime =
     (if 10 ^ 18 > K0
      then D * D div neg_fprime
           + D * (mul1 div neg_fprime) div 10 ^ 18 * (10 ^ 18 - K0) div K0
      else D * D div neg_fprime
           - (D * mul1 div neg_fprime div 10 ^ 18 * (K0 - 10 ^ 18)) div K0)"

text \<open>
  The body of one iteration up to the new value of \<open>D\<close>. The divisors are \<open>D\<close> (in
  \<open>K0\<close>), \<open>gamma\<close> and \<open>ANN\<close> (in \<open>mul1\<close>), \<open>_g1k0\<close> (at least 1), \<open>K0\<close> and
  \<open>neg_fprime\<close>.
\<close>

definition newton_step :: "int \<Rightarrow> int \<Rightarrow> int list \<Rightarrow> int \<Rightarrow> int \<Rightarrow> int \<Rightarrow> error + int" where
  "newton_step ANN gamma x N_COINS S D =
     (case newton_K0 x N_COINS D of
        Inl e \<Rightarrow> Inl e
      | Inr K0 \<Rightarrow>
          if gamma = 0 \<or> ANN = 0 \<or> K0 = 0 then Inl ZeroDivisionError
          else
            (let g1k0 = newton_g1k0 gamma K0;
                 mul1 = newton_mul1 ANN gamma D g1k0;
                 mul2 = newton_mul2 N_COINS K0 g1k0;
                 neg_fprime = newton_neg_fprime N_COINS S D K0 mul1 mul2
             in if neg_fprime = 0 then Inl ZeroDivisionError
                else
                  (let D_plus = newton_D_plus D S neg_fprime;
                       D_minus = newton_D_minus D K0 mul1 neg_fprime
                   in Inr (if D_plus > D_minus then D_plus - D_minus
                           else (D_minus - D_plus) div 2))))"

text \<open>
  \<open>for _x in x: frac = (_x * 10**18) // D; assert 10**16 <= frac <= 10**20\<close>,
  then \<open>return D\<close>.
\<close>

fun newton_safe :: "int \<Rightarrow> int list \<Rightarrow> error + int" where
  "newton_safe D [] = Inr D"
| "newton_safe D (x # xs) =
     (if D = 0 then Inl ZeroDivisionError
      else if 10 ^ 16 \<le> x * 10 ^ 18 div D \<and> x * 10 ^ 18 div D \<le> 10 ^ 20
        then newton_safe D xs
      else Inl (AssertionError ''Unsafe values x[i]''))"

text \<open>The test \<open>diff * 10**14 < max(10**16, D)\<close> with \<open>diff = abs(D - D_prev)\<close>.\<close>

definition newton_converged :: "int \<Rightarrow> int \<Rightarrow> bool" where
  "newton_converged D_prev D \<longleftrightarrow> \<bar>D - D_prev\<bar> * 10 ^ 14 < max (10 ^ 16) D"

primrec newton_loop ::
  "nat \<Rightarrow> int \<Rightarrow> int \<Rightarrow> int list \<Rightarrow> int \<Rightarrow> int \<Rightarrow> int \<Rightarrow> error + int" where
  "newton_loop 0 ANN gamma x N_COINS S D = Inl (CalculationError ''Did not converge'')"
| "newton_loop (Suc k) ANN gamma x N_COINS S D_prev =
     (case newton_step ANN gamma x N_COINS S D_prev of
        Inl e \<Rightarrow> Inl e
      | Inr D \<Rightarrow>
          if newton_converged D_prev D then newton_safe D x
          else newton_loop k ANN gamma x N_COINS S D)"

text \<open>
  The initial guess from \<open>K0_prev\<close> (the branch \<open>K0_prev != 0\<close>, so the division by
  \<open>K0_prev\<close> is defined).
\<close>

fun newton_guess :: "int list \<Rightarrow> int \<Rightarrow> int \<Rightarrow> error + int" where
  "newton_guess (x0 # x1 # x2 # xs) S K0_prev =
     (if S > 10 ^ 36 then cbrt (x0 * x1 div 10 ^ 36 * x2 div K0_prev * 27 * 10 ^ 12)
      else if S > 10 ^ 24 then cbrt (x0 * x1 div 10 ^ 24 * x2 div K0_prev * 27 * 10 ^ 6)
      else cbrt (x0 * x1 div 10 ^ 18 * x2 div K0_prev * 27))"
| "newton_guess xs S K0_prev = Inl IndexError"

text \<open>
  The initial value of \<open>D\<close>: \<open>N_COINS * geometric_mean(x, False)\<close> when \<open>K0_prev\<close> is
  zero, the cube-root guess otherwise.
\<close>

definition newton_D0 :: "int list \<Rightarrow> int \<Rightarrow> int \<Rightarrow> error + int" where
  "newton_D0 x S K0_prev =
     (if K0_prev = 0
      then (case geometric_mean x False of
              Inl e \<Rightarrow> Inl e
            | Inr g \<Rightarrow> Inr (int (length x) * g))
      else newton_guess x S K0_prev)"

definition newton_D :: "int \<Rightarrow> int \<Rightarrow> int list \<Rightarrow> int \<Rightarrow> error + int" where
  "newton_D ANN gamma x_unsorted K0_prev =
     (let x = sorted_desc x_unsorted;
          N_COINS = int (length x)
      in case x of
           [] \<Rightarrow> Inl IndexError
         | x0 # _ \<Rightarrow>
             if \<not> x0 < (2 ^ 256 - 1) div 10 ^ 18 * N_COINS ^ length x
               then Inl (AssertionError [])
             else if \<not> x0 > 0 then Inl (AssertionError [])
             else
               (let S = sum_list x
                in case newton_D0 x S K0_prev of
                     Inl e \<Rightarrow> Inl e
                   | Inr D \<Rightarrow> newton_loop 255 ANN gamma x N_COINS S D))"


section \<open>\<open>newton_D\<close>: the first, shadowed definition\<close>

text \<open>
  The first \<open>def newton_D(ANN, gamma, x_unsorted)\<close> of the module. No call reaches it
  through the name \<open>newton_D\<close>, which the later definition rebinds.
\<close>









section \<open>The sweep setters of \<open>pool_mixins.py\<close>\<close>

text \<open>
  A setter mutates the pool it is given; the model returns the updated pool. Of a pool
  the setters read \<open>rates\<close> and \<open>n\<close> and write \<open>balances\<close>; a meta-pool has a
  \<open>basepool\<close> besides.
\<close>

record pool =
  rates :: "int list"
  n :: int
  balances :: "int list"

record metapool = pool +
  basepool :: pool

text \<open>
  The comprehension \<open>[D // n * 10**18 // r for r in rates]\<close>: an element is computed
  for each rate in turn, and either division raises on a zero divisor.
\<close>

fun D_to_balances :: "int \<Rightarrow> int \<Rightarrow> int list \<Rightarrow> error + int list" where
  "D_to_balances D n_tokens [] = Inr []"
| "D_to_balances D n_tokens (r # rs) =
     (if n_tokens = 0 \<or> r = 0 then Inl ZeroDivisionError
      else case D_to_balances D n_tokens rs of
             Inl e \<Rightarrow> Inl e
           | Inr bs \<Rightarrow> Inr (D div n_tokens * 10 ^ 18 div r # bs))"

definition stableswap_D_to_balances ::
  "'a pool_scheme \<Rightarrow> int \<Rightarrow> error + 'a pool_scheme" where
  "stableswap_D_to_balances p D =
     (case D_to_balances D (n p) (rates p) of
        Inl e \<Rightarrow> Inl e
      | Inr bs \<Rightarrow> Inr (p\<lparr>balances := bs\<rparr>))"

definition stableswap_D_base_to_balances :: "metapool \<Rightarrow> int \<Rightarrow> error + metapool" where
  "stableswap_D_base_to_balances p D_base =
     (case D_to_balances D_base (n (basepool p)) (rates (basepool p)) of
        Inl e \<Rightarrow> Inl e
      | Inr bs \<Rightarrow> Inr (p\<lparr>basepool := (basepool p)\<lparr>balances := bs\<rparr>\<rparr>))"

text \<open>
  The \<open>setters\<close> property of each mixin is a dictionary literal from parameter names to
  module-level functions. The functions are named by a constructor each, so that one
  table type serves the three pool families; \<open>Set_cryptoswap_gamma\<close> is defined in the
  module and entered in no table.
\<close>

datatype setter =
    Stableswap_D_to_balances
  | Stableswap_D_base_to_balances
  | Cryptoswap_D_to_balances
  | Set_cryptoswap_A
  | Set_cryptoswap_gamma

datatype mixin = CurvePoolMixin | CurveMetaPoolMixin | CurveCryptoPoolMixin

fun setters :: "mixin \<Rightarrow> (string \<times> setter) list" where
  "setters CurvePoolMixin = [(''D'', Stableswap_D_to_balances)]"
| "setters CurveMetaPoolMixin =
     [(''D'', Stableswap_D_to_balances), (''D_base'', Stableswap_D_base_to_balances)]"
| "setters CurveCryptoPoolMixin =
     [(''D'', Cryptoswap_D_to_balances), (''A'', Set_cryptoswap_A)]"

section \<open>The fixture \<open>mainnet_3pool_state\<close> of \<open>conftest.py\<close>\<close>

text \<open>
  The entries of the dictionary the fixture returns, a constant for each key:
  \<open>virtual_balances\<close> is \<open>[b * p // 10**18 for b, p in zip(balances, p)]\<close>.
\<close>

definition mainnet_3pool_N_COINS :: int where
  "mainnet_3pool_N_COINS = 3"

definition mainnet_3pool_A :: int where
  "mainnet_3pool_A = 2000"

definition mainnet_3pool_p :: "int list" where
  "mainnet_3pool_p = [10 ^ 18, 10 ^ 30, 10 ^ 30]"

definition mainnet_3pool_balances :: "int list" where
  "mainnet_3pool_balances = [295949605740077243186725223, 284320067518878, 288200854907854]"

definition mainnet_3pool_virtual_balances :: "int list" where
  "mainnet_3pool_virtual_balances =
     map (\<lambda>(b, p). b * p div 10 ^ 18) (zip mainnet_3pool_balances mainnet_3pool_p)"

definition mainnet_3pool_lp_tokens :: int where
  "mainnet_3pool_lp_tokens = 849743149250065202008212976"

definition mainnet_3pool_virtual_price :: int where
  "mainnet_3pool_virtual_price = 1022038799187029697"

section \<open>The integer helpers\<close>

lemma drop_bit_pow2_int: "drop_bit s (2 ^ m :: int) = (if s \<le> m then 2 ^ (m - s) else 0)"
  by (simp add: drop_bit_exp_eq)

text \<open>
  On a power of two \<open>2 ^ m\<close> with \<open>m < 2 * s\<close>, a step leaves a power of two with an
  exponent below \<open>s\<close>, and the exponent it removes is added to the result.
\<close>

lemma log2_step_pow2:
  assumes "m < 2 * s"
  shows "\<exists>m'. m' < s \<and> log2_step s (2 ^ m, int k - int m) = (2 ^ m', int k - int m')"
proof (cases "s \<le> m")
  case True
  with assms have "m - s < s" by simp
  moreover from True have "log2_step s (2 ^ m, int k - int m) = (2 ^ (m - s), int k - int (m - s))"
    by (simp add: log2_step_def drop_bit_pow2_int)
  ultimately show ?thesis by blast
next
  case False
  then have "log2_step s (2 ^ m, int k - int m) = (2 ^ m, int k - int m)"
    by (simp add: log2_step_def drop_bit_pow2_int)
  with False show ?thesis by (intro exI [of _ m]) simp
qed

lemma snekmate_log_2_zero: "snekmate_log_2 0 roundup = 0"
  by (simp add: snekmate_log_2_def log2_step_def)

lemma snekmate_log_2_pow2:
  assumes "k \<le> 255"
  shows "snekmate_log_2 (2 ^ k) False = int k"
proof -
  from assms have "k < 2 * 128" by simp
  from log2_step_pow2 [OF this, of k] obtain m1 where
    m1: "m1 < 128" "log2_step 128 (2 ^ k, 0) = (2 ^ m1, int k - int m1)" by auto
  from m1(1) have "m1 < 2 * 64" by simp
  from log2_step_pow2 [OF this, of k] obtain m2 where
    m2: "m2 < 64" "log2_step 64 (2 ^ m1, int k - int m1) = (2 ^ m2, int k - int m2)" by auto
  from m2(1) have "m2 < 2 * 32" by simp
  from log2_step_pow2 [OF this, of k] obtain m3 where
    m3: "m3 < 32" "log2_step 32 (2 ^ m2, int k - int m2) = (2 ^ m3, int k - int m3)" by auto
  from m3(1) have "m3 < 2 * 16" by simp
  from log2_step_pow2 [OF this, of k] obtain m4 where
    m4: "m4 < 16" "log2_step 16 (2 ^ m3, int k - int m3) = (2 ^ m4, int k - int m4)" by auto
  from m4(1) have "m4 < 2 * 8" by simp
  from log2_step_pow2 [OF this, of k] obtain m5 where
    m5: "m5 < 8" "log2_step 8 (2 ^ m4, int k - int m4) = (2 ^ m5, int k - int m5)" by auto
  from m5(1) have "m5 < 2 * 4" by simp
  from log2_step_pow2 [OF this, of k] obtain m6 where
    m6: "m6 < 4" "log2_step 4 (2 ^ m5, int k - int m5) = (2 ^ m6, int k - int m6)" by auto
  from m6(1) have "m6 < 2 * 2" by simp
  from log2_step_pow2 [OF this, of k] obtain m7 where
    m7: "m7 < 2" "log2_step 2 (2 ^ m6, int k - int m6) = (2 ^ m7, int k - int m7)" by auto
  from m7(1) have "m7 = 0 \<or> m7 = 1" by auto
  then have "(if drop_bit 1 (2 ^ m7 :: int) \<noteq> 0 then int k - int m7 + 1 else int k - int m7) = int k"
    by (auto simp: drop_bit_pow2_int)
  moreover have "snekmate_log_2 (2 ^ k) False
    = (if drop_bit 1 (2 ^ m7 :: int) \<noteq> 0 then int k - int m7 + 1 else int k - int m7)"
    by (simp add: snekmate_log_2_def Let_def m1(2) m2(2) m3(2) m4(2) m5(2) m6(2) m7(2))
  ultimately show ?thesis by simp
qed

text \<open>
  Claim C5. The integer logarithm is exact on powers of two: for every \<open>k\<close> from 0 to
  255, \<open>_snekmate_log_2(2**k, False)\<close> is \<open>k\<close>; and \<open>_snekmate_log_2(0, roundup)\<close>
  is 0 for both values of the flag.
\<close>

theorem snekmate_log_2_exact:
  "(k \<le> 255 \<longrightarrow> snekmate_log_2 (2 ^ k) False = int k)
   \<and> snekmate_log_2 0 True = 0 \<and> snekmate_log_2 0 False = 0"
  by (simp add: snekmate_log_2_pow2 snekmate_log_2_zero)

theorem snekmate_log_2_exact_witness:
  "(200::nat) \<le> 255 \<and> snekmate_log_2 (2 ^ 200) False = 200"
  using snekmate_log_2_exact [of 200] by simp

text \<open>
  Claim C4. The cube root of a cube should come back within one unit. In the branch for
  inputs below \<open>115792089237316195423570985008687907853269\<close> the code scales by
  \<open>x * 10 * 36\<close>, that is by 360, where the two other branches scale to \<open>10**36\<close> in
  all (\<open>x * 10**18\<close> with the result times \<open>10**6\<close>, and \<open>x\<close> with the result times
  \<open>10**12\<close>). So the fixed-point cube \<open>8 * 10**18\<close> of \<open>2 * 10**18\<close> gives 14227573
  and the plain cube 8 of 2 gives 14, while in the middle branch \<open>8 * 10**54\<close> gives
  \<open>2 * 10**30\<close>, the fixed-point cube root.
\<close>

theorem cbrt_small_branch:
  "cbrt (8 * 10 ^ 18) = Inr 14227573 \<and> cbrt 8 = Inr 14
   \<and> cbrt (8 * 10 ^ 54) = Inr (2 * 10 ^ 30)"
  by code_simp

section \<open>\<open>geometric_mean\<close> and the order of its input\<close>

lemma sort_mset_eq:
  assumes "mset xs = mset ys"
  shows "sort xs = sort (ys :: int list)"
proof -
  have "mset (sort ys) = mset xs" using assms by simp
  moreover have "sorted (sort ys)" by simp
  ultimately show ?thesis by (rule properties_for_sort)
qed

text \<open>
  Claim C3, amended. With the sort flag set, \<open>geometric_mean\<close> gives the same outcome
  (the same value, or the same error) on a list and on each of its permutations. With
  the flag unset the list is iterated as given, starting from its first element, and
  the outcome depends on the order.
\<close>

theorem geometric_mean_sorted_permutation:
  assumes "mset xs = mset ys"
  shows "geometric_mean xs True = geometric_mean ys True"
proof -
  from assms have "sort xs = sort ys"
    by (rule sort_mset_eq)
  then have "sorted_desc xs = sorted_desc ys"
    by (simp add: sorted_desc_def)
  moreover from assms have "length xs = length ys"
    by (rule mset_eq_length)
  ultimately show ?thesis
    by (simp add: geometric_mean_def)
qed

theorem geometric_mean_sorted_permutation_witness:
  "mset [10 ^ 18, 4 * 10 ^ 18 :: int] = mset [4 * 10 ^ 18, 10 ^ 18]
   \<and> geometric_mean [10 ^ 18, 4 * 10 ^ 18] True = geometric_mean [4 * 10 ^ 18, 10 ^ 18] True"
proof -
  have h: "mset [10 ^ 18, 4 * 10 ^ 18 :: int] = mset [4 * 10 ^ 18, 10 ^ 18]"
    by (simp add: add_mset_commute)
  from geometric_mean_sorted_permutation [OF h] h show ?thesis by blast
qed

text \<open>
  The claim as stated fails for the flag \<open>False\<close>: the list \<open>[10**18, 4 * 10**18]\<close> and
  its reversal give results two units apart.
\<close>

theorem geometric_mean_unsorted_counterexample:
  "mset [10 ^ 18, 4 * 10 ^ 18 :: int] = mset [4 * 10 ^ 18, 10 ^ 18]
   \<and> geometric_mean [10 ^ 18, 4 * 10 ^ 18] False = Inr 1999999999999999997
   \<and> geometric_mean [4 * 10 ^ 18, 10 ^ 18] False = Inr 1999999999999999999
   \<and> geometric_mean [10 ^ 18, 4 * 10 ^ 18] False \<noteq> geometric_mean [4 * 10 ^ 18, 10 ^ 18] False"
proof -
  have m: "mset [10 ^ 18, 4 * 10 ^ 18 :: int] = mset [4 * 10 ^ 18, 10 ^ 18]"
    by (simp add: add_mset_commute)
  have a: "geometric_mean [10 ^ 18, 4 * 10 ^ 18] False = Inr 1999999999999999997"
    by code_simp
  have b: "geometric_mean [4 * 10 ^ 18, 10 ^ 18] False = Inr 1999999999999999999"
    by code_simp
  from m a b show ?thesis by simp
qed

section \<open>\<open>lp_price\<close> and \<open>get_p\<close>\<close>

text \<open>
  Claim C10. \<open>lp_price\<close> never succeeds: whatever its two arguments, it raises
  \<open>CalculationError\<close> and returns no price.
\<close>

theorem lp_price_never_succeeds:
  "lp_price virtual_price price_oracle
     = Inl (CalculationError ''LP price calc doesn't support more than 3 coins'')
   \<and> (\<forall>v. lp_price virtual_price price_oracle \<noteq> Inr v)"
  by (simp add: lp_price_def)




section \<open>The sweep setters\<close>

lemma D_to_balances_ok:
  "n_tokens \<noteq> 0 \<Longrightarrow> 0 \<notin> set rs \<Longrightarrow>
   D_to_balances D n_tokens rs = Inr (map (\<lambda>r. D div n_tokens * 10 ^ 18 div r) rs)"
  by (induction rs) auto

text \<open>
  Claim C7. Setting the invariant distributes it over the tokens through the rates:
  on a pool with non-zero token count \<open>n\<close> and non-zero rates (as every stableswap pool
  has), the \<open>D\<close> setter succeeds and leaves \<open>balances[i] = D // n * 10**18 // rates[i]\<close>
  for every \<open>i\<close>, and on a meta-pool the \<open>D_base\<close> setter does the same to the balances
  of the nested base pool, with the base pool's own \<open>n\<close> and \<open>rates\<close>, and leaves the
  meta-pool's own balances alone.
\<close>

theorem D_setters_distribute:
  "(n p \<noteq> 0 \<and> 0 \<notin> set (rates p) \<longrightarrow>
      (\<exists>p'. stableswap_D_to_balances p D = Inr p'
         \<and> length (balances p') = length (rates p)
         \<and> (\<forall>i < length (rates p). balances p' ! i = D div n p * 10 ^ 18 div rates p ! i)
         \<and> rates p' = rates p \<and> n p' = n p))
   \<and> (n (basepool mp) \<noteq> 0 \<and> 0 \<notin> set (rates (basepool mp)) \<longrightarrow>
      (\<exists>mp'. stableswap_D_base_to_balances mp D_base = Inr mp'
         \<and> length (balances (basepool mp')) = length (rates (basepool mp))
         \<and> (\<forall>i < length (rates (basepool mp)).
               balances (basepool mp') ! i
                 = D_base div n (basepool mp) * 10 ^ 18 div rates (basepool mp) ! i)
         \<and> rates (basepool mp') = rates (basepool mp) \<and> n (basepool mp') = n (basepool mp)
         \<and> balances mp' = balances mp \<and> rates mp' = rates mp \<and> n mp' = n mp))"
proof -
  have a: "n p \<noteq> 0 \<Longrightarrow> 0 \<notin> set (rates p) \<Longrightarrow>
      stableswap_D_to_balances p D
        = Inr (p\<lparr>balances := map (\<lambda>r. D div n p * 10 ^ 18 div r) (rates p)\<rparr>)"
    by (simp add: stableswap_D_to_balances_def D_to_balances_ok)
  have b: "n (basepool mp) \<noteq> 0 \<Longrightarrow> 0 \<notin> set (rates (basepool mp)) \<Longrightarrow>
      stableswap_D_base_to_balances mp D_base
        = Inr (mp\<lparr>basepool := (basepool mp)\<lparr>balances :=
             map (\<lambda>r. D_base div n (basepool mp) * 10 ^ 18 div r) (rates (basepool mp))\<rparr>\<rparr>)"
    by (simp add: stableswap_D_base_to_balances_def D_to_balances_ok)
  show ?thesis
  proof (intro conjI impI)
    assume "n p \<noteq> 0 \<and> 0 \<notin> set (rates p)"
    then show "\<exists>p'. stableswap_D_to_balances p D = Inr p'
         \<and> length (balances p') = length (rates p)
         \<and> (\<forall>i < length (rates p). balances p' ! i = D div n p * 10 ^ 18 div rates p ! i)
         \<and> rates p' = rates p \<and> n p' = n p"
      using a by simp
  next
    assume "n (basepool mp) \<noteq> 0 \<and> 0 \<notin> set (rates (basepool mp))"
    then show "\<exists>mp'. stableswap_D_base_to_balances mp D_base = Inr mp'
         \<and> length (balances (basepool mp')) = length (rates (basepool mp))
         \<and> (\<forall>i < length (rates (basepool mp)).
               balances (basepool mp') ! i
                 = D_base div n (basepool mp) * 10 ^ 18 div rates (basepool mp) ! i)
         \<and> rates (basepool mp') = rates (basepool mp) \<and> n (basepool mp') = n (basepool mp)
         \<and> balances mp' = balances mp \<and> rates mp' = rates mp \<and> n mp' = n mp"
      using b by (cases mp) simp
  qed
qed

theorem D_setters_distribute_witness:
  "stableswap_D_to_balances \<lparr>rates = [10 ^ 18, 10 ^ 30], n = 2, balances = []\<rparr> (10 ^ 20)
     = Inr \<lparr>rates = [10 ^ 18, 10 ^ 30], n = 2, balances = [50000000000000000000, 50000000]\<rparr>
   \<and> stableswap_D_base_to_balances
        \<lparr>rates = [10 ^ 18, 10 ^ 18], n = 2, balances = [7, 9],
         basepool = \<lparr>rates = [10 ^ 18, 10 ^ 30, 10 ^ 30], n = 3, balances = [1, 2, 3]\<rparr>\<rparr>
        (3 * 10 ^ 20)
     = Inr \<lparr>rates = [10 ^ 18, 10 ^ 18], n = 2, balances = [7, 9],
            basepool = \<lparr>rates = [10 ^ 18, 10 ^ 30, 10 ^ 30], n = 3,
                        balances = [100000000000000000000, 100000000, 100000000]\<rparr>\<rparr>"
  using D_setters_distribute
    [of "\<lparr>rates = [10 ^ 18, 10 ^ 30], n = 2, balances = []\<rparr>" "10 ^ 20"
        "\<lparr>rates = [10 ^ 18, 10 ^ 18], n = 2, balances = [7, 9],
          basepool = \<lparr>rates = [10 ^ 18, 10 ^ 30, 10 ^ 30], n = 3, balances = [1, 2, 3]\<rparr>\<rparr>"
        "3 * 10 ^ 20"]
  by (simp add: stableswap_D_to_balances_def stableswap_D_base_to_balances_def)

text \<open>
  Claim C8. The registered setter tables are exactly these: the stableswap mixin has
  the one key \<open>D\<close>, the meta-pool mixin the keys \<open>D\<close> and \<open>D_base\<close>, the cryptoswap
  mixin the keys \<open>D\<close> and \<open>A\<close>. No table has the key \<open>gamma\<close>, no table holds
  \<open>set_cryptoswap_gamma\<close>, and a name other than \<open>D\<close>, \<open>D_base\<close> and \<open>A\<close> has no
  setter in any table.
\<close>

theorem setters_tables:
  "map fst (setters CurvePoolMixin) = [''D'']
   \<and> map fst (setters CurveMetaPoolMixin) = [''D'', ''D_base'']
   \<and> map fst (setters CurveCryptoPoolMixin) = [''D'', ''A'']
   \<and> (\<forall>m. map_of (setters m) ''gamma'' = None)
   \<and> (\<forall>m name. name \<notin> {''D'', ''D_base'', ''A''} \<longrightarrow> map_of (setters m) name = None)
   \<and> (\<forall>m name. map_of (setters m) name \<noteq> Some Set_cryptoswap_gamma)"
proof -
  have g: "map_of (setters m) ''gamma'' = None" for m
    by (cases m) simp_all
  have o: "name \<notin> {''D'', ''D_base'', ''A''} \<Longrightarrow> map_of (setters m) name = None" for m name
    by (cases m) auto
  have s: "map_of (setters m) name \<noteq> Some Set_cryptoswap_gamma" for m name
    by (cases m) (auto split: if_splits)
  show ?thesis using g o s by simp
qed

theorem setters_tables_witness:
  "''fee'' \<notin> {''D'', ''D_base'', ''A''} \<and> map_of (setters CurveCryptoPoolMixin) ''fee'' = None"
  using setters_tables by simp

section \<open>The outcomes of \<open>newton_D\<close>\<close>













lemma newton_safe_Inr:
  "newton_safe D x = Inr r \<Longrightarrow>
   r = D \<and> (x \<noteq> [] \<longrightarrow> D \<noteq> 0)
   \<and> (\<forall>xi \<in> set x. 10 ^ 16 \<le> xi * 10 ^ 18 div D \<and> xi * 10 ^ 18 div D \<le> 10 ^ 20)"
  by (induction x) (auto split: if_splits)


lemma newton_loop_Inr:
  "newton_loop k ANN gamma x N_COINS S D0 = Inr D \<Longrightarrow>
   \<exists>D_prev. newton_step ANN gamma x N_COINS S D_prev = Inr D \<and> newton_converged D_prev D
     \<and> newton_safe D x = Inr D"
proof (induction k arbitrary: D0)
  case 0
  then show ?case by simp
next
  case (Suc k)
  then show ?case
    by (auto split: sum.splits if_splits dest: newton_safe_Inr)
qed












section \<open>Two assets\<close>





section \<open>The reference scenario\<close>

subsection \<open>Bounds on integer quotients\<close>

text \<open>
  Python's \<open>//\<close> on non-negative operands is \<open>div\<close>; these are the monotonicity and
  rounding facts used to bound one iteration of the solver.
\<close>

lemma div_lower: "\<lbrakk>0 \<le> alo; alo \<le> a; 0 < D; D \<le> U\<rbrakk> \<Longrightarrow> alo div U \<le> a div (D :: int)"
  by (meson order_trans zdiv_mono1 zdiv_mono2)

lemma div_upper: "\<lbrakk>0 \<le> a; a \<le> ahi; 0 < L; L \<le> D\<rbrakk> \<Longrightarrow> a div D \<le> ahi div (L :: int)"
proof -
  assume a: "0 \<le> a" "a \<le> ahi" "0 < L" "L \<le> D"
  then have "a div D \<le> ahi div D" by (intro zdiv_mono1) auto
  also from a have "\<dots> \<le> ahi div L" by (intro zdiv_mono2) auto
  finally show ?thesis .
qed

lemma le_div: "\<lbrakk>q * b \<le> a; 0 < b\<rbrakk> \<Longrightarrow> q \<le> a div (b :: int)"
proof -
  assume a: "q * b \<le> a" "0 < b"
  then have "(q * b) div b \<le> a div b" by (intro zdiv_mono1)
  with a show ?thesis by simp
qed

lemma div_mult_le_int: "0 < b \<Longrightarrow> a div b * b \<le> (a :: int)"
  by (metis mult.commute pos_mod_sign add_le_cancel_left mult_div_mod_eq add.right_neutral)

lemma lt_div_mult_int: "0 < b \<Longrightarrow> (a :: int) < (a div b + 1) * b"
proof -
  assume b: "0 < b"
  from b have m: "a mod b < b" by simp
  have e: "b * (a div b) + a mod b = a" by simp
  have "(a div b + 1) * b = b * (a div b) + b" by (simp add: algebra_simps)
  with m e show ?thesis by linarith
qed

lemma div_diff_ge: "0 < c \<Longrightarrow> (a - b) div c \<le> a div c - b div (c :: int)"
proof -
  assume c: "0 < c"
  have "(a - b) div c * c \<le> a - b" using c by (rule div_mult_le_int)
  moreover have "b div c * c \<le> b" using c by (rule div_mult_le_int)
  ultimately have "((a - b) div c + b div c) * c \<le> a" by (simp add: algebra_simps)
  from le_div [OF this c] show ?thesis by simp
qed

lemma div_diff_le: "0 < c \<Longrightarrow> a div c - b div c \<le> (a - b) div (c :: int) + 1"
proof -
  assume c: "0 < c"
  have "a div c * c \<le> a" using c by (rule div_mult_le_int)
  moreover have "b < (b div c + 1) * c" using c by (rule lt_div_mult_int)
  ultimately have "(a div c - b div c - 1) * c \<le> a - b" by (simp add: algebra_simps)
  from le_div [OF this c] show ?thesis by simp
qed

lemma div_nonneg: "\<lbrakk>0 \<le> a; 0 < b\<rbrakk> \<Longrightarrow> 0 \<le> a div (b :: int)"
  by (simp add: pos_imp_zdiv_nonneg_iff)

subsection \<open>One iteration near the fixture's \<open>lp_tokens\<close>\<close>

text \<open>
  The sorted virtual balances of the fixture are \<open>295949605740077243186725223\<close>, \<open>288200854907854000000000000\<close>, \<open>284320067518878000000000000\<close> below and their
  sum is \<open>868470528166809243186725223\<close>. For \<open>D\<close> within \<open>10^14\<close> of \<open>lp_tokens\<close>, \<open>K0\<close> lies between
  \<open>1067 * 10^15\<close> and \<open>1068 * 10^15\<close>.
\<close>

lemma ref_K0_bounds:
  assumes D: "849743149249965202008212976 \<le> D" "D \<le> 849743149250165202008212976"
  shows "\<exists>K0. newton_K0 [295949605740077243186725223, 288200854907854000000000000, 284320067518878000000000000] 3 D = Inr K0
           \<and> 1067 * 10 ^ 15 \<le> K0 \<and> K0 \<le> 1068 * 10 ^ 15"
proof -
  from D have pos: "0 < D" by simp
  define t1 where "t1 = 10 ^ 18 * 295949605740077243186725223 * 3 div D"
  define t2 where "t2 = t1 * 288200854907854000000000000 * 3 div D"
  define K0 where "K0 = t2 * 284320067518878000000000000 * 3 div D"
  have K: "newton_K0 [295949605740077243186725223, 288200854907854000000000000, 284320067518878000000000000] 3 D = Inr K0"
    using pos by (simp add: K0_def t2_def t1_def)
  have l1: "10 ^ 18 * 295949605740077243186725223 * 3 div 849743149250165202008212976 \<le> t1"
    unfolding t1_def using D pos by (intro div_lower) simp_all
  have u1: "t1 \<le> 10 ^ 18 * 295949605740077243186725223 * 3 div 849743149249965202008212976"
    unfolding t1_def using D pos by (intro div_upper) simp_all
  have n1: "0 \<le> t1" unfolding t1_def using pos by (intro div_nonneg) simp_all
  have l2: "10 ^ 18 * 295949605740077243186725223 * 3 div 849743149250165202008212976 * 288200854907854000000000000 * 3 div 849743149250165202008212976 \<le> t2"
    unfolding t2_def using D pos l1 by (intro div_lower) simp_all
  have u2: "t2 \<le> 10 ^ 18 * 295949605740077243186725223 * 3 div 849743149249965202008212976 * 288200854907854000000000000 * 3 div 849743149249965202008212976"
    unfolding t2_def using D pos u1 n1 by (intro div_upper) simp_all
  have n2: "0 \<le> t2" unfolding t2_def using pos n1 by (intro div_nonneg) simp_all
  have l3: "10 ^ 18 * 295949605740077243186725223 * 3 div 849743149250165202008212976 * 288200854907854000000000000 * 3 div 849743149250165202008212976 * 284320067518878000000000000 * 3 div 849743149250165202008212976 \<le> K0"
    unfolding K0_def using D pos l2 by (intro div_lower) simp_all
  have u3: "K0 \<le> 10 ^ 18 * 295949605740077243186725223 * 3 div 849743149249965202008212976 * 288200854907854000000000000 * 3 div 849743149249965202008212976 * 284320067518878000000000000 * 3 div 849743149249965202008212976"
    unfolding K0_def using D pos u2 n2 by (intro div_upper) simp_all
  have "(1067 * 10 ^ 15 :: int) \<le> 10 ^ 18 * 295949605740077243186725223 * 3 div 849743149250165202008212976 * 288200854907854000000000000 * 3 div 849743149250165202008212976 * 284320067518878000000000000 * 3 div 849743149250165202008212976"
    by simp
  moreover have "10 ^ 18 * 295949605740077243186725223 * 3 div 849743149249965202008212976 * 288200854907854000000000000 * 3 div 849743149249965202008212976 * 284320067518878000000000000 * 3 div 849743149249965202008212976
      \<le> (1068 * 10 ^ 15 :: int)"
    by simp
  ultimately show ?thesis using K l3 u3 by (intro exI [of _ K0]) linarith
qed

subsection \<open>One iteration with \<open>K0\<close> above \<open>10**18 + gamma\<close>\<close>

text \<open>
  With three balances, \<open>0 < D \<le> S\<close> and \<open>K0 \<ge> 10**18 + gamma\<close>, the value \<open>_g1k0\<close> is
  \<open>K0 - 10**18 - gamma + 1\<close>, \<open>neg_fprime\<close> is at least \<open>S\<close>, \<open>D_plus\<close> exceeds \<open>D_minus\<close>,
  and the new value is at least \<open>D + D * (S - D) // neg_fprime\<close> plus the term subtracted
  in \<open>D_minus\<close>.
\<close>

lemma newton_step_increase:
  assumes D: "0 < D" "D \<le> S"
    and gm: "0 < gamma" and A: "0 < ANN"
    and K: "newton_K0 x 3 D = Inr K0" and K0: "10 ^ 18 + gamma \<le> K0"
    and st: "newton_step ANN gamma x 3 S D = Inr D'"
    and g: "g = K0 - 10 ^ 18 - gamma + 1"
    and mul1: "mul1 = newton_mul1 ANN gamma D g"
    and mul2: "mul2 = newton_mul2 3 K0 g"
    and nf: "nf = newton_neg_fprime 3 S D K0 mul1 mul2"
  shows "0 \<le> mul1 \<and> 0 \<le> mul2 \<and> S \<le> nf
    \<and> nf \<le> S + (mul2 * (S - D) div 10 ^ 18 + 1) + mul1 * 3 div K0
    \<and> D + D * (S - D) div nf + (D * mul1 div nf div 10 ^ 18 * (K0 - 10 ^ 18)) div K0 \<le> D'"
proof -
  have g1: "newton_g1k0 gamma K0 = g" using K0 by (simp add: newton_g1k0_def g)
  have gpos: "0 < g" using K0 by (simp add: g)
  have Kpos: "0 < K0" "10 ^ 18 \<le> K0" using K0 gm by simp_all
  have a1: "0 \<le> 10 ^ 18 * D div gamma" using D gm by (intro div_nonneg) simp_all
  have a2: "0 \<le> 10 ^ 18 * D div gamma * g div gamma"
    using a1 gpos gm by (intro div_nonneg) simp_all
  have m1: "0 \<le> mul1"
    unfolding mul1 newton_mul1_def A_MULTIPLIER_def using a2 gpos A
    by (intro div_nonneg) simp_all
  have m2: "0 \<le> mul2"
    unfolding mul2 newton_mul2_def using Kpos gpos by (intro div_nonneg) simp_all
  define T where "T = S * mul2 div 10 ^ 18 - mul2 * D div 10 ^ 18"
  define M where "M = mul1 * 3 div K0"
  have nfeq: "nf = S + T + M" by (simp add: nf newton_neg_fprime_def T_def M_def)
  have Mn: "0 \<le> M" unfolding M_def using m1 Kpos by (intro div_nonneg) simp_all
  have "D * mul2 \<le> S * mul2" using D m2 by (intro mult_right_mono) simp_all
  then have "mul2 * D \<le> S * mul2" by (simp add: mult.commute)
  then have Tn: "0 \<le> T" unfolding T_def by (simp add: zdiv_mono1)
  have "T \<le> (S * mul2 - mul2 * D) div 10 ^ 18 + 1"
    unfolding T_def by (rule div_diff_le) simp
  also have "S * mul2 - mul2 * D = mul2 * (S - D)" by (simp add: algebra_simps)
  finally have Tu: "T \<le> mul2 * (S - D) div 10 ^ 18 + 1" .
  have nfS: "S \<le> nf" using nfeq Tn Mn by simp
  have nfpos: "0 < nf" using nfS D by simp
  have nfu: "nf \<le> S + (mul2 * (S - D) div 10 ^ 18 + 1) + mul1 * 3 div K0"
    using nfeq Tu by (simp add: M_def)
  define Q where "Q = (D * mul1 div nf div 10 ^ 18 * (K0 - 10 ^ 18)) div K0"
  have q1: "0 \<le> D * mul1 div nf" using D m1 nfpos by (intro div_nonneg) simp_all
  have q2: "0 \<le> D * mul1 div nf div 10 ^ 18" by (rule div_nonneg [OF q1]) simp
  have "0 \<le> D * mul1 div nf div 10 ^ 18 * (K0 - 10 ^ 18)" using q2 Kpos by simp
  then have Qn: "0 \<le> Q" unfolding Q_def using Kpos(1) by (rule div_nonneg)
  have dm: "newton_D_minus D K0 mul1 nf = D * D div nf - Q"
    using Kpos by (simp add: newton_D_minus_def Q_def)
  have "D * (nf + S) = D * S + D * nf" by (simp add: algebra_simps)
  then have dp: "newton_D_plus D S nf = D * S div nf + D"
    using nfpos by (simp add: newton_D_plus_def)
  have "(D * S - D * D) div nf \<le> D * S div nf - D * D div nf"
    using nfpos by (rule div_diff_ge)
  also have "D * S - D * D = D * (S - D)" by (simp add: algebra_simps)
  finally have df: "D * (S - D) div nf \<le> D * S div nf - D * D div nf" .
  have "0 \<le> D * (S - D) div nf" using D nfpos by (intro div_nonneg) simp_all
  with df Qn D have gt: "newton_D_minus D K0 mul1 nf < newton_D_plus D S nf"
    unfolding dm dp by linarith
  have "newton_step ANN gamma x 3 S D
      = Inr (newton_D_plus D S nf - newton_D_minus D K0 mul1 nf)"
    using K Kpos gm A nfpos gt
    by (simp add: newton_step_def Let_def g1 mul1 [symmetric] mul2 [symmetric] nf [symmetric])
  with st have "D' = newton_D_plus D S nf - newton_D_minus D K0 mul1 nf" by simp
  with df have "D + D * (S - D) div nf + Q \<le> D'" unfolding dm dp by linarith
  with m1 m2 nfS nfu show ?thesis unfolding Q_def by simp
qed

text \<open>
  On the fixture's balances, an iteration that starts within \<open>10**14\<close> of \<open>lp_tokens\<close>
  moves \<open>D\<close> up by at least \<open>10**24\<close>, whatever \<open>ANN > 0\<close> and \<open>0 < gamma \<le> 2 * 10**16\<close>
  are: either \<open>mul1 * 3 // K0\<close> is at most \<open>10**28\<close> and \<open>D * (S - D) // neg_fprime\<close> is
  large, or it is larger and the term subtracted in \<open>D_minus\<close> is large.
\<close>

lemma ref_step_far:
  assumes D: "849743149249965202008212976 \<le> D" "D \<le> 849743149250165202008212976"
    and gm: "0 < gamma" "gamma \<le> 2 * 10 ^ 16" and A: "0 < ANN"
    and st: "newton_step ANN gamma [295949605740077243186725223, 288200854907854000000000000, 284320067518878000000000000] 3 868470528166809243186725223 D = Inr D'"
  shows "D + 10 ^ 24 \<le> D'"
proof -
  define L :: int where "L = 849743149249965202008212976"
  define U :: int where "U = 849743149250165202008212976"
  define S :: int where "S = 868470528166809243186725223"
  define Klo :: int where "Klo = 1067 * 10 ^ 15"
  define Khi :: int where "Khi = 1068 * 10 ^ 15"
  define glo :: int where "glo = 47 * 10 ^ 15"
  define m2hi :: int where "m2hi = 6 * 10 ^ 18 * Khi div glo"
  define C :: int where "C = S + (m2hi * (S - L) div 10 ^ 18 + 1)"
  have num:
    "0 < L" "L \<le> U" "U \<le> S" "10 ^ 18 + 2 * 10 ^ 16 \<le> Klo" "Klo \<le> Khi"
    "glo = Klo - 10 ^ 18 - 2 * 10 ^ 16" "0 < glo" "0 \<le> m2hi" "0 < C" "C \<le> 10 ^ 28"
    "10 ^ 24 \<le> L * (S - U) div (C + 10 ^ 28)"
    "10 ^ 24 \<le> (L * Klo div 6 div 10 ^ 18 * (Klo - 10 ^ 18)) div Khi"
    unfolding C_def m2hi_def glo_def Khi_def Klo_def S_def U_def L_def by simp_all
  have DL: "L \<le> D" "D \<le> U" using D by (simp_all add: L_def U_def)
  have Dpos: "0 < D" "D \<le> S" using DL num by simp_all
  from ref_K0_bounds [OF D] obtain K0 where
    K: "newton_K0 [295949605740077243186725223, 288200854907854000000000000, 284320067518878000000000000] 3 D = Inr K0"
    and Kb: "Klo \<le> K0" "K0 \<le> Khi" unfolding Klo_def Khi_def by blast
  define g where "g = K0 - 10 ^ 18 - gamma + 1"
  define mul1 where "mul1 = newton_mul1 ANN gamma D g"
  define mul2 where "mul2 = newton_mul2 3 K0 g"
  define nf where "nf = newton_neg_fprime 3 S D K0 mul1 mul2"
  have K0g: "10 ^ 18 + gamma \<le> K0" using gm Kb num by simp
  have Kpos: "0 < K0" "10 ^ 18 \<le> K0" using K0g gm by simp_all
  note inc = newton_step_increase [OF Dpos gm(1) A K K0g st [folded S_def] g_def mul1_def mul2_def nf_def]
  from inc have m1: "0 \<le> mul1" and m2: "0 \<le> mul2" and nfS: "S \<le> nf"
    and nfu: "nf \<le> S + (mul2 * (S - D) div 10 ^ 18 + 1) + mul1 * 3 div K0"
    and res: "D + D * (S - D) div nf + (D * mul1 div nf div 10 ^ 18 * (K0 - 10 ^ 18)) div K0 \<le> D'"
    by simp_all
  have nfpos: "0 < nf" using nfS Dpos by simp
  have gl: "glo \<le> g" using gm Kb num by (simp add: g_def)
  have "mul2 \<le> m2hi"
    unfolding mul2_def newton_mul2_def m2hi_def
    using Kb Kpos gl num by (intro div_upper) simp_all
  then have "mul2 * (S - D) \<le> m2hi * (S - L)"
    using m2 DL Dpos by (intro mult_mono) simp_all
  then have "mul2 * (S - D) div 10 ^ 18 \<le> m2hi * (S - L) div 10 ^ 18"
    by (simp add: zdiv_mono1)
  with nfu have nfC: "nf \<le> C + mul1 * 3 div K0" by (simp add: C_def)
  define M where "M = mul1 * 3 div K0"
  define Q where "Q = (D * mul1 div nf div 10 ^ 18 * (K0 - 10 ^ 18)) div K0"
  define P where "P = D * (S - D) div nf"
  have pr: "L * (S - U) \<le> D * (S - D)"
    using DL num by (intro mult_mono) simp_all
  have pr0: "0 \<le> L * (S - U)" using num by simp
  have Pn: "0 \<le> P" unfolding P_def using Dpos nfpos by (intro div_nonneg) simp_all
  have q1: "0 \<le> D * mul1 div nf" using Dpos m1 nfpos by (intro div_nonneg) simp_all
  have q2: "0 \<le> D * mul1 div nf div 10 ^ 18" by (rule div_nonneg [OF q1]) simp
  have "0 \<le> D * mul1 div nf div 10 ^ 18 * (K0 - 10 ^ 18)" using q2 Kpos by simp
  then have Qn: "0 \<le> Q" unfolding Q_def using Kpos(1) by (rule div_nonneg)
  have "10 ^ 24 \<le> P + Q"
  proof (cases "M \<le> 10 ^ 28")
    case True
    with nfC have "nf \<le> C + 10 ^ 28" by (simp add: M_def)
    with pr pr0 nfpos have "L * (S - U) div (C + 10 ^ 28) \<le> P"
      unfolding P_def by (intro div_lower)
    with num Qn show ?thesis by linarith
  next
    case False
    with nfC num have "nf \<le> 2 * M" by (simp add: M_def)
    then have "nf * K0 \<le> 2 * M * K0" using Kpos by (intro mult_right_mono) simp_all
    moreover have "M * K0 \<le> mul1 * 3" unfolding M_def using Kpos by (intro div_mult_le_int)
    ultimately have nk: "K0 * nf \<le> 6 * mul1" by (simp add: mult.commute)
    define q where "q = D * K0 div 6"
    have "q * 6 \<le> D * K0" unfolding q_def by (intro div_mult_le_int) simp
    then have "q * 6 * nf \<le> D * K0 * nf" using nfpos by (intro mult_right_mono) simp_all
    moreover have "D * (K0 * nf) \<le> D * (6 * mul1)" using nk Dpos by (intro mult_left_mono) simp_all
    ultimately have "q * nf \<le> D * mul1" by (simp add: algebra_simps)
    then have qd: "q \<le> D * mul1 div nf" using nfpos by (rule le_div)
    have "L * Klo \<le> D * K0" using DL Kb num by (intro mult_mono) simp_all
    then have "L * Klo div 6 \<le> q" unfolding q_def by (simp add: zdiv_mono1)
    with qd have "L * Klo div 6 \<le> D * mul1 div nf" by simp
    then have r1: "L * Klo div 6 div 10 ^ 18 \<le> D * mul1 div nf div 10 ^ 18"
      by (simp add: zdiv_mono1)
    have r0: "0 \<le> L * Klo div 6 div 10 ^ 18" using num by (simp add: Klo_def pos_imp_zdiv_nonneg_iff)
    have r2: "L * Klo div 6 div 10 ^ 18 * (Klo - 10 ^ 18)
        \<le> D * mul1 div nf div 10 ^ 18 * (K0 - 10 ^ 18)"
      using r1 r0 Kb num q2 by (intro mult_mono) simp_all
    have r3: "0 \<le> L * Klo div 6 div 10 ^ 18 * (Klo - 10 ^ 18)" using r0 num by simp
    from r3 r2 Kpos(1) Kb(2) have "(L * Klo div 6 div 10 ^ 18 * (Klo - 10 ^ 18)) div Khi \<le> Q"
      unfolding Q_def by (rule div_lower)
    with num Pn show ?thesis by linarith
  qed
  with res show ?thesis unfolding P_def Q_def by linarith
qed

subsection \<open>The solve on the fixture\<close>

lemma ref_sorted:
  "sorted_desc mainnet_3pool_virtual_balances = [295949605740077243186725223, 288200854907854000000000000, 284320067518878000000000000]"
  by code_simp

lemma ref_newton_D_loop:
  assumes "newton_D ANN gamma mainnet_3pool_virtual_balances K0_prev = Inr D"
  shows "\<exists>D0. newton_loop 255 ANN gamma [295949605740077243186725223, 288200854907854000000000000, 284320067518878000000000000] 3 868470528166809243186725223 D0 = Inr D"
  using assms unfolding newton_D_def Let_def ref_sorted
  by (auto split: if_splits sum.splits)

lemma near_lp_tokens:
  fixes D D_prev :: int
  assumes "\<bar>D - D_prev\<bar> * 10 ^ 14 < max (10 ^ 16) D"
    and "\<bar>D - 849743149250065202008212976\<bar> * 10 ^ 14 < max (10 ^ 16) D"
  shows "849743149249965202008212976 \<le> D_prev \<and> D_prev \<le> 849743149250165202008212976 \<and> D < D_prev + 10 ^ 24"
  using assms by (simp add: max_def abs_if split: if_splits)

text \<open>
  Claim C9, amended. The number \<open>849743149250065202008212976\<close> is the fixture's
  \<open>lp_tokens\<close>, not an invariant. On the fixture's virtual balances, for every
  \<open>ANN > 0\<close>, every \<open>gamma\<close> with \<open>0 < gamma \<le> MAX_GAMMA\<close> and every \<open>K0_prev\<close>, a value
  \<open>D\<close> returned by \<open>newton_D\<close> fails the solver's convergence test against that number:
  \<open>abs(D - lp_tokens) * 10**14 \<ge> max(10**16, D)\<close>. The value returned comes from a
  last iteration that passed the test against its own start \<open>D_prev\<close>; were \<open>D\<close> within
  tolerance of \<open>lp_tokens\<close>, \<open>D_prev\<close> would be within \<open>10**14\<close> of it, and such an iteration
  moves \<open>D\<close> by at least \<open>10**24\<close>.
\<close>

theorem reference_solve_not_lp_tokens:
  assumes "0 < ANN" and "0 < gamma" and "gamma \<le> MAX_GAMMA"
    and "newton_D ANN gamma mainnet_3pool_virtual_balances K0_prev = Inr D"
  shows "\<not> newton_converged mainnet_3pool_lp_tokens D"
proof
  assume c: "newton_converged mainnet_3pool_lp_tokens D"
  from ref_newton_D_loop [OF assms(4)] obtain D0 where
    "newton_loop 255 ANN gamma [295949605740077243186725223, 288200854907854000000000000, 284320067518878000000000000] 3 868470528166809243186725223 D0 = Inr D" ..
  from newton_loop_Inr [OF this] obtain D_prev where
    st: "newton_step ANN gamma [295949605740077243186725223, 288200854907854000000000000, 284320067518878000000000000] 3 868470528166809243186725223 D_prev = Inr D"
    and cv: "newton_converged D_prev D" by blast
  from cv c have n: "849743149249965202008212976 \<le> D_prev \<and> D_prev \<le> 849743149250165202008212976 \<and> D < D_prev + 10 ^ 24"
    unfolding newton_converged_def mainnet_3pool_lp_tokens_def by (rule near_lp_tokens)
  from assms(3) have "gamma \<le> 2 * 10 ^ 16" by (simp add: MAX_GAMMA_def)
  with n assms(1,2) st have "D_prev + 10 ^ 24 \<le> D" by (intro ref_step_far) simp_all
  with n show False by simp
qed

text \<open>
  The theorem at \<open>ANN = 2000\<close>, \<open>gamma = 10**15\<close>, \<open>K0_prev = 0\<close>, where the solve returns
  \<open>868357119615440801992759744\<close>.
\<close>

theorem reference_solve_not_lp_tokens_witness:
  "0 < (2000 :: int) \<and> 0 < (10 ^ 15 :: int) \<and> 10 ^ 15 \<le> MAX_GAMMA
   \<and> newton_D 2000 (10 ^ 15) mainnet_3pool_virtual_balances 0 = Inr 868357119615440801992759744
   \<and> \<not> newton_converged mainnet_3pool_lp_tokens 868357119615440801992759744"
proof -
  have e: "newton_D 2000 (10 ^ 15) mainnet_3pool_virtual_balances 0
      = Inr 868357119615440801992759744"
    by code_simp
  have g: "(10 ^ 15 :: int) \<le> MAX_GAMMA" by (simp add: MAX_GAMMA_def)
  have "\<not> newton_converged mainnet_3pool_lp_tokens 868357119615440801992759744"
    by (rule reference_solve_not_lp_tokens [OF _ _ g e]) simp_all
  with e g show ?thesis by simp
qed


text \<open>
  The claim as stated fails: with the fixture's \<open>A = 2000\<close> and \<open>gamma = MAX_GAMMA\<close> the
  solve on the fixture's virtual balances converges to \<open>868357441075824011175580359\<close>,
  which is more than \<open>1.8 * 10**25\<close> above \<open>849743149250065202008212976\<close>.
\<close>

theorem reference_solve_counterexample:
  "newton_D mainnet_3pool_A MAX_GAMMA mainnet_3pool_virtual_balances 0
     = Inr 868357441075824011175580359
   \<and> \<not> newton_converged mainnet_3pool_lp_tokens 868357441075824011175580359
   \<and> 868357441075824011175580359 - mainnet_3pool_lp_tokens = 18614291825758809167367383"
  by code_simp

end
